theory Spec2Isabelle
  imports Complex_Main "HOL-Library.Char_ord"
begin

section \<open>Characters and strings\<close>

text \<open>
  A text is a \<^typ>\<open>string\<close>. The character predicates below are those of Python's
  \<^verbatim>\<open>str\<close> and \<^verbatim>\<open>re\<close> on the ASCII range; characters from 128 on are
  taken as caseless, non-word and non-space, so the model speaks about ASCII documents.
\<close>

definition is_upper :: "char \<Rightarrow> bool" where
  "is_upper c = (CHR ''A'' \<le> c \<and> c \<le> CHR ''Z'')"

definition is_lower :: "char \<Rightarrow> bool" where
  "is_lower c = (CHR ''a'' \<le> c \<and> c \<le> CHR ''z'')"

definition is_digit :: "char \<Rightarrow> bool" where
  "is_digit c = (CHR ''0'' \<le> c \<and> c \<le> CHR ''9'')"

text \<open>\<^verbatim>\<open>\w\<close>: alphanumeric or underscore.\<close>

definition is_word :: "char \<Rightarrow> bool" where
  "is_word c = (is_upper c \<or> is_lower c \<or> is_digit c \<or> c = CHR ''_'')"

text \<open>\<^verbatim>\<open>\s\<close> and \<^verbatim>\<open>str.isspace\<close>: codes 9 to 13, 28 to 32.\<close>

definition is_space :: "char \<Rightarrow> bool" where
  "is_space c = (let n = (of_char c :: nat) in (9 \<le> n \<and> n \<le> 13) \<or> (28 \<le> n \<and> n \<le> 32))"

definition lower_char :: "char \<Rightarrow> char" where
  "lower_char c = (if is_upper c then char_of (of_char c + (32::nat)) else c)"

definition upper_char :: "char \<Rightarrow> char" where
  "upper_char c = (if is_lower c then char_of (of_char c - (32::nat)) else c)"

text \<open>\<^verbatim>\<open>str.lower()\<close>\<close>

definition lower :: "string \<Rightarrow> string" where
  "lower s = map lower_char s"

text \<open>\<^verbatim>\<open>str.strip()\<close>: leading and trailing whitespace removed.\<close>

definition strip :: "string \<Rightarrow> string" where
  "strip s = rev (dropWhile is_space (rev (dropWhile is_space s)))"

text \<open>\<^verbatim>\<open>str.split()\<close> without separator: the maximal runs of non-whitespace.\<close>

fun split_ws_aux :: "string \<Rightarrow> string \<Rightarrow> string list" where
  "split_ws_aux cur [] = (if cur = [] then [] else [rev cur])"
| "split_ws_aux cur (c # cs) =
     (if is_space c then (if cur = [] then split_ws_aux [] cs else rev cur # split_ws_aux [] cs)
      else split_ws_aux (c # cur) cs)"

definition split_ws :: "string \<Rightarrow> string list" where
  "split_ws s = split_ws_aux [] s"

text \<open>
  \<^verbatim>\<open>str.split(sep)\<close> for a non-empty separator (Python raises ValueError on an
  empty one; the analyzer's only separator is the blank line): the text is cut at each
  occurrence of \<open>sep\<close> found scanning left to right, occurrences not overlapping; the
  result has one more piece than there are cuts.
\<close>

function split_sep_aux :: "string \<Rightarrow> string \<Rightarrow> string \<Rightarrow> string list" where
  "split_sep_aux sep cur [] = [rev cur]"
| "split_sep_aux sep cur (c # cs) =
     (if take (length sep) (c # cs) = sep
      then rev cur # split_sep_aux sep [] (drop (length sep - 1) cs)
      else split_sep_aux sep (c # cur) cs)"
  by pat_completeness auto
termination
  by (relation "measure (\<lambda>(sep, cur, s). length s)") auto

definition split_sep :: "string \<Rightarrow> string \<Rightarrow> string list" where
  "split_sep sep s = split_sep_aux sep [] s"

section \<open>Regular expressions\<close>

text \<open>
  The fragment of Python's \<^verbatim>\<open>re\<close> syntax that the analyzer's patterns use. A class is
  a list of items; repetition is greedy, alternation tries its left branch first.
\<close>

datatype citem = Single char | Range char char | Digit | Space

datatype regex =
    Eps
  | Lit char
  | Class "citem list"
  | WordB
  | Seq regex regex
  | Alt regex regex
  | Star regex

definition Plus :: "regex \<Rightarrow> regex" where
  "Plus r = Seq r (Star r)"

definition Opt :: "regex \<Rightarrow> regex" where
  "Opt r = Alt r Eps"

primrec Rep :: "nat \<Rightarrow> regex \<Rightarrow> regex" where
  "Rep 0 r = Eps"
| "Rep (Suc n) r = Seq r (Rep n r)"

text \<open>A literal string, as \<^verbatim>\<open>re.escape\<close> makes a pattern of a keyword.\<close>

definition re_escape :: "string \<Rightarrow> regex" where
  "re_escape k = foldr (\<lambda>c r. Seq (Lit c) r) k Eps"

definition seqs :: "regex list \<Rightarrow> regex" where
  "seqs rs = foldr Seq rs Eps"

fun alts :: "regex list \<Rightarrow> regex" where
  "alts [] = Eps"
| "alts [r] = r"
| "alts (r # rs) = Alt r (alts rs)"

fun in_item :: "char \<Rightarrow> citem \<Rightarrow> bool" where
  "in_item c (Single d) = (c = d)"
| "in_item c (Range a b) = (a \<le> c \<and> c \<le> b)"
| "in_item c Digit = is_digit c"
| "in_item c Space = is_space c"

text \<open>
  One character against a literal or a class; \<open>ic\<close> is the flag
  \<^verbatim>\<open>re.IGNORECASE\<close>, under which a character matches when one of its case
  variants does.
\<close>

definition lit_match :: "bool \<Rightarrow> char \<Rightarrow> char \<Rightarrow> bool" where
  "lit_match ic d c = (if ic then lower_char c = lower_char d else c = d)"

definition class_match :: "bool \<Rightarrow> citem list \<Rightarrow> char \<Rightarrow> bool" where
  "class_match ic items c =
     (if ic then list_ex (in_item (lower_char c)) items \<or> list_ex (in_item (upper_char c)) items
      else list_ex (in_item c) items)"

text \<open>\<^verbatim>\<open>\b\<close> at position \<open>i\<close>: exactly one side is a word character.\<close>

definition at_boundary :: "string \<Rightarrow> nat \<Rightarrow> bool" where
  "at_boundary s i =
     ((0 < i \<and> i \<le> length s \<and> is_word (s ! (i - 1))) \<noteq> (i < length s \<and> is_word (s ! i)))"

text \<open>
  Greedy repetition from position \<open>i\<close>: \<open>f\<close> gives the end positions of one
  iteration. An iteration that consumes nothing is not repeated, so \<open>n\<close> iterations
  suffice when \<open>n\<close> characters remain.
\<close>

primrec star_iter :: "(nat \<Rightarrow> nat list) \<Rightarrow> nat \<Rightarrow> nat \<Rightarrow> nat list" where
  "star_iter f 0 i = [i]"
| "star_iter f (Suc n) i = concat (map (star_iter f n) (filter (\<lambda>e. i < e) (f i))) @ [i]"

text \<open>
  \<open>rmatch ic r s i\<close>: the positions at which a match of \<open>r\<close> that starts at \<open>i\<close>
  can end, in the order in which the backtracking matcher tries them. The head is the
  match \<^verbatim>\<open>re\<close> reports.
\<close>

primrec rmatch :: "bool \<Rightarrow> regex \<Rightarrow> string \<Rightarrow> nat \<Rightarrow> nat list" where
  "rmatch ic Eps s = (\<lambda>i. [i])"
| "rmatch ic (Lit d) s = (\<lambda>i. if i < length s \<and> lit_match ic d (s ! i) then [Suc i] else [])"
| "rmatch ic (Class items) s =
     (\<lambda>i. if i < length s \<and> class_match ic items (s ! i) then [Suc i] else [])"
| "rmatch ic WordB s = (\<lambda>i. if at_boundary s i then [i] else [])"
| "rmatch ic (Seq r1 r2) s = (\<lambda>i. concat (map (rmatch ic r2 s) (rmatch ic r1 s i)))"
| "rmatch ic (Alt r1 r2) s = (\<lambda>i. rmatch ic r1 s i @ rmatch ic r2 s i)"
| "rmatch ic (Star r) s = (\<lambda>i. star_iter (rmatch ic r s) (length s - i) i)"

text \<open>
  \<open>search\<close>: the leftmost match at or after position \<open>j\<close>, as a span. \<open>must\<close> is
  set after an empty match: at the first position tried, the match has to be non-empty.
\<close>

function search :: "bool \<Rightarrow> regex \<Rightarrow> string \<Rightarrow> bool \<Rightarrow> nat \<Rightarrow> (nat \<times> nat) option" where
  "search ic r s must j =
     (if length s < j then None
      else (case filter (\<lambda>e. \<not> (must \<and> e = j)) (rmatch ic r s j) of
              e # _ \<Rightarrow> Some (j, e)
            | [] \<Rightarrow> search ic r s False (Suc j)))"
  by pat_completeness auto
termination
  by (relation "measure (\<lambda>(ic, r, s, must, j). Suc (length s) - j)") auto

text \<open>
  \<^verbatim>\<open>re.finditer\<close>: the spans of the successive non-overlapping matches, each search
  resuming where the previous match ended.
\<close>

function finditer_from :: "bool \<Rightarrow> regex \<Rightarrow> string \<Rightarrow> bool \<Rightarrow> nat \<Rightarrow> (nat \<times> nat) list" where
  "finditer_from ic r s must pos =
     (case search ic r s must pos of
        None \<Rightarrow> []
      | Some (j, e) \<Rightarrow> (j, e) # finditer_from ic r s (e = j) e)"
  by pat_completeness auto
termination
proof (relation "measure (\<lambda>(ic, r, s, must, pos). 2 * (Suc (length s) - pos) + (if must then 0 else 1))",
    goal_cases)
  case 1
  show ?case by simp
next
  case (2 ic r s must pos x j e)
  have star: "e' \<in> set (star_iter f n i) \<Longrightarrow> i \<le> e'" for f n i e'
    by (induction n arbitrary: i) fastforce+
  have fwd: "e' \<in> set (rmatch ic' r' s' i) \<Longrightarrow> i \<le> e'" for ic' r' s' i e'
  proof (induction r' arbitrary: i e')
    case (Seq r1 r2)
    then show ?case by fastforce
  next
    case (Star r')
    then show ?case using star by simp
  qed (auto split: if_splits)
  have found: "search ic' r' s' m p = Some (j', e') \<Longrightarrow>
      p \<le> j' \<and> j' \<le> length s' \<and> j' \<le> e' \<and> (m \<and> j' = p \<longrightarrow> e' \<noteq> j')" for ic' r' s' m p j' e'
  proof (induction ic' r' s' m p rule: search.induct)
    case (1 ic' r' s' m p)
    show ?case
    proof (cases "filter (\<lambda>e. \<not> (m \<and> e = p)) (rmatch ic' r' s' p)")
      case Nil
      with "1.prems" have le: "\<not> length s' < p" and rec: "search ic' r' s' False (Suc p) = Some (j', e')"
        by (auto simp: search.simps [of ic' r' s' m p] split: if_splits)
      from "1.IH" [OF le Nil rec] show ?thesis by auto
    next
      case (Cons a as)
      with "1.prems" have le: "\<not> length s' < p" and eq: "j' = p" "e' = a"
        by (auto simp: search.simps [of ic' r' s' m p] split: if_splits)
      from Cons have "a \<in> set (filter (\<lambda>e. \<not> (m \<and> e = p)) (rmatch ic' r' s' p))" by simp
      then have "a \<in> set (rmatch ic' r' s' p)" "\<not> (m \<and> a = p)" by auto
      with fwd le eq show ?thesis by auto
    qed
  qed
  from 2 have "search ic r s must pos = Some (j, e)" by simp
  from found [OF this] show ?case by auto
qed

declare search.simps [simp del] finditer_from.simps [simp del]

definition finditer :: "bool \<Rightarrow> regex \<Rightarrow> string \<Rightarrow> (nat \<times> nat) list" where
  "finditer ic r s = finditer_from ic r s False 0"

text \<open>\<^verbatim>\<open>s[j:e]\<close>\<close>

definition slice :: "string \<Rightarrow> nat \<Rightarrow> nat \<Rightarrow> string" where
  "slice s j e = take (e - j) (drop j s)"

text \<open>\<^verbatim>\<open>re.findall\<close> for a pattern without capturing groups: the matched substrings.\<close>

definition findall :: "bool \<Rightarrow> regex \<Rightarrow> string \<Rightarrow> string list" where
  "findall ic r s = map (\<lambda>(j, e). slice s j e) (finditer ic r s)"

text \<open>
  \<^verbatim>\<open>re.split\<close> for a pattern without capturing groups: the pieces of the text between
  the successive matches, and the rest after the last one.
\<close>

fun split_at :: "string \<Rightarrow> nat \<Rightarrow> (nat \<times> nat) list \<Rightarrow> string list" where
  "split_at s p [] = [slice s p (length s)]"
| "split_at s p ((j, e) # spans) = slice s p j # split_at s e spans"

definition re_split :: "regex \<Rightarrow> string \<Rightarrow> string list" where
  "re_split r s = split_at s 0 (finditer False r s)"

section \<open>The matcher\<close>

text \<open>
  The pattern every scorer builds for a taxonomy keyword:
  \<^verbatim>\<open>r'\b' + re.escape(keyword) + r'\b'\<close>.
\<close>

definition keyword_pattern :: "string \<Rightarrow> regex" where
  "keyword_pattern keyword = Seq WordB (Seq (re_escape keyword) WordB)"

text \<open>
  \<^verbatim>\<open>len(re.findall(r'\b' + re.escape(keyword) + r'\b', text_lower))\<close>: the number of
  matches of the keyword in the lowered text. The keyword is used as it is written.
\<close>

definition count_matches :: "string \<Rightarrow> string \<Rightarrow> nat" where
  "count_matches text_lower keyword = length (findall False (keyword_pattern keyword) text_lower)"

section \<open>Dictionaries\<close>

text \<open>
  A Python dict keeps its keys in insertion order, and the analyzer sorts and slices
  dict items, so a dict is an association list with distinct keys.
  \<open>dict_set\<close> is \<^verbatim>\<open>d[k] = v\<close>; \<open>dict_incr\<close> is \<^verbatim>\<open>d[k] += n\<close> on a key that is
  present (the scorer initialises the keys it increments).
\<close>

fun dict_set :: "('k \<times> 'v) list \<Rightarrow> 'k \<Rightarrow> 'v \<Rightarrow> ('k \<times> 'v) list" where
  "dict_set [] k v = [(k, v)]"
| "dict_set ((k', v') # d) k v = (if k' = k then (k, v) # d else (k', v') # dict_set d k v)"

definition dict_incr :: "('k \<times> nat) list \<Rightarrow> 'k \<Rightarrow> nat \<Rightarrow> ('k \<times> nat) list" where
  "dict_incr d k n = map (\<lambda>(k', v). if k' = k then (k', v + n) else (k', v)) d"

text \<open>
  \<^verbatim>\<open>sorted(items, key=key, reverse=True)\<close>: Python's sort is stable, and with
  \<^verbatim>\<open>reverse=True\<close> it keeps the original order of items with equal keys: the list is
  reversed, sorted ascending and reversed again.
\<close>

definition sorted_reverse :: "('a \<Rightarrow> nat) \<Rightarrow> 'a list \<Rightarrow> 'a list" where
  "sorted_reverse key xs = rev (sort_key key (rev xs))"

section \<open>Taxonomies\<close>

definition methodologies :: "(string \<times> string list) list" where
  "methodologies =
    [(''qualitative'',
       [''ethnography'', ''ethnographic'', ''interview'', ''focus group'',
        ''case study'', ''participant observation'', ''grounded theory'',
        ''narrative analysis'', ''discourse analysis'', ''content analysis'',
        ''phenomenology'', ''phenomenological'', ''autoethnography'',
        ''life history'', ''oral history'', ''fieldwork'', ''field notes'']),
     (''quantitative'',
       [''survey'', ''questionnaire'', ''regression'', ''statistical analysis'',
        ''anova'', ''correlation'', ''sample size'', ''n ='', ''p <'', ''p-value'',
        ''significance'', ''t-test'', ''chi-square'', ''factor analysis'',
        ''logistic regression'', ''descriptive statistics'', ''inferential statistics'',
        ''random sample'', ''probability sample'', ''statistical significance'']),
     (''mixed_methods'',
       [''mixed method'', ''mixed-method'', ''triangulation'',
        ''sequential design'', ''concurrent design'', ''convergent design'',
        ''explanatory sequential'', ''exploratory sequential''])]"

definition theories :: "(string \<times> string list) list" where
  "theories =
    [(''structural_functionalism'',
       [''structural functionalism'', ''functionalism'', ''functional'',
        ''parsons'', ''merton'', ''durkheim'', ''social structure'',
        ''social system'', ''equilibrium'', ''manifest function'', ''latent function'']),
     (''conflict_theory'',
       [''conflict theory'', ''marx'', ''marxist'', ''class conflict'',
        ''power dynamics'', ''inequality'', ''oppression'', ''hegemony'',
        ''exploitation'', ''domination'', ''class struggle'']),
     (''symbolic_interactionism'',
       [''symbolic interaction'', ''interactionism'', ''goffman'', ''blumer'',
        ''mead'', ''dramaturgy'', ''impression management'', ''self concept'',
        ''looking glass self'', ''significant other'', ''generalized other'']),
     (''feminist_theory'',
       [''feminist'', ''feminism'', ''patriarchy'', ''gender inequality'',
        ''intersectionality'', ''womens studies'', ''masculine'', ''feminine'',
        ''gender roles'', ''sex and gender'', ''gender stratification'']),
     (''critical_race_theory'',
       [''critical race'', ''crt'', ''racial formation'', ''systemic racism'',
        ''structural racism'', ''racial inequality'', ''colorblind'',
        ''white privilege'', ''racialization'']),
     (''postmodernism'',
       [''postmodern'', ''postmodernism'', ''foucault'', ''derrida'',
        ''deconstruction'', ''discourse'', ''power/knowledge'',
        ''grand narrative'', ''metanarrative'', ''fragmentation'']),
     (''rational_choice'',
       [''rational choice'', ''rational actor'', ''cost-benefit'',
        ''utility maximization'', ''game theory'', ''exchange theory'',
        ''social exchange'']),
     (''social_constructionism'',
       [''social construction'', ''socially constructed'', ''berger'',
        ''luckmann'', ''reality construction'', ''social reality''])]"

definition concepts :: "string list" where
  "concepts =
    [''social capital'', ''cultural capital'', ''habitus'', ''field'',
     ''stigma'', ''deviance'', ''anomie'', ''social solidarity'',
     ''mechanical solidarity'', ''organic solidarity'',
     ''gemeinschaft'', ''gesellschaft'', ''social mobility'',
     ''stratification'', ''socialization'', ''social control'',
     ''social institution'', ''norms'', ''values'', ''roles'',
     ''status'', ''achieved status'', ''ascribed status'',
     ''in-group'', ''out-group'', ''reference group'',
     ''primary group'', ''secondary group'', ''bureaucracy'',
     ''rationalization'', ''McDonaldization'', ''globalization'',
     ''urbanization'', ''modernization'', ''secularization'',
     ''social movement'', ''collective behavior'', ''social change'']"

text \<open>The patterns of the research components, read with \<^verbatim>\<open>re.IGNORECASE\<close>.\<close>

definition digits1 :: regex where
  "digits1 = Plus (Class [Digit])"

definition spaces0 :: regex where
  "spaces0 = Star (Class [Space])"

definition spaces1 :: regex where
  "spaces1 = Plus (Class [Space])"

text \<open>\<^verbatim>\<open>n\s*=\s*\d+\<close>\<close>

definition n_equals :: regex where
  "n_equals = seqs [Lit CHR ''n'', spaces0, Lit CHR ''='', spaces0, digits1]"

definition research_patterns :: "(string \<times> regex) list" where
  "research_patterns =
    [(''hypothesis'',
       alts [re_escape ''hypothesis'', re_escape ''hypotheses'', re_escape ''we hypothesize'',
             re_escape ''hypothesized'']),
     (''research_question'',
       alts [re_escape ''research question'',
             seqs [re_escape ''RQ'', digits1],
             seqs [re_escape ''this study '',
                   alts [re_escape ''asks'', re_escape ''examines'', re_escape ''investigates'']]]),
     (''sample'',
       alts [re_escape ''sample size'',
             n_equals,
             seqs [re_escape ''participant'', Opt (Lit CHR ''s''), spaces0, Lit CHR ''('',
                   n_equals, Lit CHR '')'']]),
     (''findings'',
       alts [re_escape ''findings'', re_escape ''results show'', re_escape ''we found'',
             re_escape ''discovered that'',
             seqs [re_escape ''demonstrate'', Opt (Lit CHR ''s''), re_escape '' that'']]),
     (''limitations'',
       alts [re_escape ''limitation'', re_escape ''caveat'', re_escape ''shortcoming'',
             re_escape ''weakness of this study'']),
     (''future_research'',
       alts [re_escape ''future research'', re_escape ''further investigation'',
             re_escape ''future studies''])]"

text \<open>The three citation patterns.\<close>

definition author :: regex where
  "author = Seq (Class [Range CHR ''A'' CHR ''Z'']) (Plus (Class [Range CHR ''a'' CHR ''z'']))"

definition year :: regex where
  "year = Rep 4 (Class [Digit])"

text \<open>\<^verbatim>\<open>\([A-Z][a-z]+(?:,?\s+(?:and|&)\s+[A-Z][a-z]+)*,?\s+\d{4}\)\<close>\<close>

definition citation_parenthetical :: regex where
  "citation_parenthetical =
     seqs [Lit CHR ''('', author,
           Star (seqs [Opt (Lit CHR '',''), spaces1, Alt (re_escape ''and'') (Lit CHR ''&''),
                       spaces1, author]),
           Opt (Lit CHR '',''), spaces1, year, Lit CHR '')'']"

text \<open>\<^verbatim>\<open>\([A-Z][a-z]+\s+et\s+al\.,?\s+\d{4}\)\<close>\<close>

definition citation_et_al :: regex where
  "citation_et_al =
     seqs [Lit CHR ''('', author, spaces1, re_escape ''et'', spaces1, re_escape ''al.'',
           Opt (Lit CHR '',''), spaces1, year, Lit CHR '')'']"

text \<open>\<^verbatim>\<open>[A-Z][a-z]+\s+\(\d{4}\)\<close>\<close>

definition citation_narrative :: regex where
  "citation_narrative = seqs [author, spaces1, Lit CHR ''('', year, Lit CHR '')'']"

definition citation_patterns :: "regex list" where
  "citation_patterns = [citation_parenthetical, citation_et_al, citation_narrative]"

definition stop_words :: "string list" where
  "stop_words =
    [''the'', ''a'', ''an'', ''and'', ''or'', ''but'', ''in'', ''on'', ''at'', ''to'', ''for'',
     ''of'', ''with'', ''by'', ''from'', ''as'', ''is'', ''was'', ''are'', ''were'', ''been'',
     ''be'', ''have'', ''has'', ''had'', ''do'', ''does'', ''did'', ''will'', ''would'',
     ''could'', ''should'', ''may'', ''might'', ''can'', ''this'', ''that'', ''these'',
     ''those'', ''i'', ''you'', ''he'', ''she'', ''it'', ''we'', ''they'', ''what'', ''which'',
     ''who'', ''when'', ''where'', ''why'', ''how'', ''all'', ''each'', ''every'', ''both'',
     ''few'', ''more'', ''most'', ''other'', ''some'', ''such'', ''than'', ''too'', ''very'']"

text \<open>\<^verbatim>\<open>\b[a-z]{4,}\b\<close>\<close>

definition word_pattern :: regex where
  "word_pattern =
     seqs [WordB, Rep 4 (Class [Range CHR ''a'' CHR ''z'']), Star (Class [Range CHR ''a'' CHR ''z'']),
           WordB]"

text \<open>\<^verbatim>\<open>[.!?]+\<close>\<close>

definition sentence_end :: regex where
  "sentence_end = Plus (Class [Single CHR ''.'', Single CHR ''!'', Single CHR ''?''])"

section \<open>The scorers\<close>

text \<open>
  \<open>detect_methodology\<close>: every category starts at 0 and is incremented by the number of
  matches of each of its keywords in the lowered text.
\<close>

definition detect_methodology :: "string \<Rightarrow> (string \<times> nat) list" where
  "detect_methodology text =
     (let text_lower = lower text;
          methodology_scores = [(''qualitative'', 0), (''quantitative'', 0), (''mixed_methods'', 0)]
      in fold (\<lambda>(method_type, keywords) scores.
                 fold (\<lambda>keyword scores'.
                         dict_incr scores' method_type (count_matches text_lower keyword))
                   keywords scores)
           methodologies methodology_scores)"

text \<open>
  \<^verbatim>\<open>list(set(xs))\<close> lists the distinct elements of \<open>xs\<close> in the iteration order of a
  set of strings. That order follows the strings' hashes, which Python randomises for
  each interpreter process; within one process it is a function of \<open>xs\<close>. The functions
  that build such a list take the order as their first argument, \<open>set_order\<close>, and
  \<open>valid_set_order\<close> says what every such order satisfies.
\<close>

definition valid_set_order :: "(string list \<Rightarrow> string list) \<Rightarrow> bool" where
  "valid_set_order set_order = (\<forall>xs. distinct (set_order xs) \<and> set (set_order xs) = set xs)"

record theory_finding =
  count :: nat
  terms :: "string list"

text \<open>The inner loop of \<open>identify_theories\<close>, on the pair \<open>(count, matched_terms)\<close>.\<close>

definition theory_step :: "string \<Rightarrow> string \<Rightarrow> nat \<times> string list \<Rightarrow> nat \<times> string list" where
  "theory_step text_lower keyword acc =
     (let matches = count_matches text_lower keyword
      in if 0 < matches then (fst acc + matches, snd acc @ [keyword]) else acc)"

definition identify_theories ::
  "(string list \<Rightarrow> string list) \<Rightarrow> string \<Rightarrow> (string \<times> theory_finding) list" where
  "identify_theories set_order text =
     (let text_lower = lower text
      in fold (\<lambda>(theory_name, keywords) theories_found.
                 (let (n, matched_terms) = fold (theory_step text_lower) keywords (0, [])
                  in if 0 < n
                     then dict_set theories_found theory_name
                            \<lparr>count = n, terms = set_order matched_terms\<rparr>
                     else theories_found))
           theories [])"

text \<open>
  \<open>extract_concepts\<close>: the concepts with a positive count, in taxonomy order, then sorted
  by count, largest first.
\<close>

definition concepts_found :: "string \<Rightarrow> (string \<times> nat) list" where
  "concepts_found text_lower =
     fold (\<lambda>concept found.
             (let n = count_matches text_lower concept
              in if 0 < n then dict_set found concept n else found))
       concepts []"

definition extract_concepts :: "string \<Rightarrow> (string \<times> nat) list" where
  "extract_concepts text = sorted_reverse snd (concepts_found (lower text))"

text \<open>
  \<open>analyze_research_components\<close>: the patterns run on the text as it is, ignoring case.
\<close>

definition analyze_research_components :: "string \<Rightarrow> (string \<times> nat) list" where
  "analyze_research_components text =
     fold (\<lambda>(component, pattern) components.
             (let n = length (finditer True pattern text)
              in if 0 < n then dict_set components component n else components))
       research_patterns []"

record citations =
  total_citations :: nat
  unique_citations :: nat
  sample_citations :: "string list"

text \<open>The pooled matches of the three citation patterns, pattern by pattern.\<close>

definition all_citations :: "string \<Rightarrow> string list" where
  "all_citations text = concat (map (\<lambda>pattern. findall False pattern text) citation_patterns)"

definition extract_citations :: "(string list \<Rightarrow> string list) \<Rightarrow> string \<Rightarrow> citations" where
  "extract_citations set_order text =
     \<lparr>total_citations = length (all_citations text),
      unique_citations = card (set (all_citations text)),
      sample_citations = take 10 (set_order (all_citations text))\<rparr>"

text \<open>
  \<^verbatim>\<open>Counter(words)\<close>: a dict from each word to its number of occurrences, keys in order
  of first appearance.
\<close>

fun counter_add :: "(string \<times> nat) list \<Rightarrow> string \<Rightarrow> (string \<times> nat) list" where
  "counter_add [] w = [(w, 1)]"
| "counter_add ((k, n) # d) w = (if k = w then (k, n + 1) # d else (k, n) # counter_add d w)"

definition counter :: "string list \<Rightarrow> (string \<times> nat) list" where
  "counter ws = fold (\<lambda>w d. counter_add d w) ws []"

text \<open>
  \<^verbatim>\<open>Counter.most_common(n)\<close> for an integer \<open>n\<close>: the first \<open>n\<close> items of the items
  sorted by count, largest first, equal counts in order of first appearance; no item when
  \<open>n\<close> is not positive.
\<close>

definition most_common :: "(string \<times> nat) list \<Rightarrow> int \<Rightarrow> (string \<times> nat) list" where
  "most_common d n = take (nat n) (sorted_reverse snd d)"

definition keyword_tokens :: "string \<Rightarrow> string list" where
  "keyword_tokens text = filter (\<lambda>w. w \<notin> set stop_words) (findall False word_pattern (lower text))"

definition extract_keywords :: "string \<Rightarrow> int \<Rightarrow> (string \<times> nat) list" where
  "extract_keywords text top_n = most_common (counter (keyword_tokens text)) top_n"

text \<open>The default of the parameter: \<^verbatim>\<open>top_n=20\<close>.\<close>

definition extract_keywords_default :: "string \<Rightarrow> (string \<times> nat) list" where
  "extract_keywords_default text = extract_keywords text 20"

record summary =
  word_count :: nat
  sentence_count :: nat
  avg_sentence_length :: real
  paragraph_count :: nat

text \<open>
  \<open>generate_summary\<close>. The average is Python's true division of two integers, here
  the exact quotient (the float is its rounding).
\<close>

definition sentences :: "string \<Rightarrow> string list" where
  "sentences text = map strip (filter (\<lambda>s. 20 < length (strip s)) (re_split sentence_end text))"

definition generate_summary :: "string \<Rightarrow> summary" where
  "generate_summary text =
     \<lparr>word_count = length (split_ws text),
      sentence_count = length (sentences text),
      avg_sentence_length = real (length (split_ws text)) / real (max (length (sentences text)) 1),
      paragraph_count = length (split_sep [CHR 0x0A, CHR 0x0A] text)\<rparr>"

section \<open>The analysis\<close>

text \<open>
  \<^verbatim>\<open>max(items, key=lambda x: x[1])\<close>: the first item whose count no later item exceeds;
  the running best is replaced only by a strictly larger count.
\<close>

fun max_by_count :: "string \<times> nat \<Rightarrow> (string \<times> nat) list \<Rightarrow> string \<times> nat" where
  "max_by_count best [] = best"
| "max_by_count best (x # xs) = max_by_count (if snd best < snd x then x else best) xs"

text \<open>
  What section 2 of the narrative says about the primary methodology: the line
  \<^verbatim>\<open>Primary Methodology: ...\<close> for a category, no such line, or the line
  \<^verbatim>\<open>No clear methodology indicators found.\<close>
\<close>

datatype primary_line = Primary string | No_primary_line | No_clear_indicators

definition primary_methodology :: "(string \<times> nat) list \<Rightarrow> primary_line" where
  "primary_methodology methodology =
     (let total_method_mentions = sum_list (map snd methodology)
      in if 0 < total_method_mentions
         then (case methodology of
                 [] \<Rightarrow> No_primary_line
               | x # xs \<Rightarrow>
                   (let primary = max_by_count x xs
                    in if 0 < snd primary then Primary (fst primary) else No_primary_line))
         else No_clear_indicators)"

text \<open>
  A category holds the strict maximum when its count exceeds the count of every other
  category.
\<close>

definition strict_maximum :: "(string \<times> nat) list \<Rightarrow> string \<Rightarrow> bool" where
  "strict_maximum methodology k =
     (case map_of methodology k of
        None \<Rightarrow> False
      | Some n \<Rightarrow> list_all (\<lambda>p. fst p = k \<or> snd p < n) methodology)"

text \<open>
  The narrative, as far as the properties below speak of it: the primary methodology,
  the concepts listed (at most 15), the sample citations listed (at most 5) and the
  keywords listed.
\<close>

record narrative =
  primary :: primary_line
  concepts_listed :: "(string \<times> nat) list"
  citations_listed :: "string list"
  keywords_listed :: "(string \<times> nat) list"

text \<open>
  The structured result. Its keys are those of the source, with \<open>theories_found\<close>,
  \<open>concepts_found_sorted\<close> and \<open>top_keywords\<close> for the keys \<^verbatim>\<open>theories\<close>,
  \<^verbatim>\<open>concepts\<close> and \<^verbatim>\<open>keywords\<close>.
\<close>

record report =
  filepath :: string
  timestamp :: string
  summary :: summary
  methodology :: "(string \<times> nat) list"
  theories_found :: "(string \<times> theory_finding) list"
  concepts_found_sorted :: "(string \<times> nat) list"
  components :: "(string \<times> nat) list"
  citations :: citations
  top_keywords :: "(string \<times> nat) list"

text \<open>
  \<open>analyze\<close>. \<open>contents\<close> is what \<open>read_file\<close> returned (\<open>None\<close> when the file
  could not be read) and \<open>now\<close> the clock's reading. No text, or an empty one, ends the
  analysis without a result.
\<close>

definition analyze ::
  "(string list \<Rightarrow> string list) \<Rightarrow> string \<Rightarrow> string \<Rightarrow> string option \<Rightarrow> (narrative \<times> report) option" where
  "analyze set_order now path contents =
     (case contents of
        None \<Rightarrow> None
      | Some text \<Rightarrow>
          if text = [] then None
          else
            (let summ = generate_summary text;
                 meth = detect_methodology text;
                 ths = identify_theories set_order text;
                 cons = extract_concepts text;
                 comps = analyze_research_components text;
                 cits = extract_citations set_order text;
                 kws = extract_keywords text 15
             in Some
                  (\<lparr>primary = primary_methodology meth,
                    concepts_listed = take 15 cons,
                    citations_listed = take 5 (sample_citations cits),
                    keywords_listed = kws\<rparr>,
                   \<lparr>filepath = path, timestamp = now, summary = summ, methodology = meth,
                    theories_found = ths, concepts_found_sorted = cons, components = comps,
                    citations = cits, top_keywords = kws\<rparr>)))"

text \<open>
  Two results of \<open>analyze\<close> agree up to the timestamp and the iteration order of
  sets: every field but the timestamp is equal, except that the terms of a theory are
  equal as sets, and that the sample citations are equally many and, when there are no
  more than 10 unique citations, equal as sets.
\<close>

definition same_finding :: "string \<times> theory_finding \<Rightarrow> string \<times> theory_finding \<Rightarrow> bool" where
  "same_finding a b =
     (fst a = fst b \<and> count (snd a) = count (snd b) \<and> set (terms (snd a)) = set (terms (snd b)))"

definition same_up_to_set_order :: "report \<Rightarrow> report \<Rightarrow> bool" where
  "same_up_to_set_order r1 r2 =
     (filepath r1 = filepath r2 \<and> summary r1 = summary r2 \<and> methodology r1 = methodology r2 \<and>
      list_all2 same_finding (theories_found r1) (theories_found r2) \<and>
      concepts_found_sorted r1 = concepts_found_sorted r2 \<and>
      components r1 = components r2 \<and>
      total_citations (citations r1) = total_citations (citations r2) \<and>
      unique_citations (citations r1) = unique_citations (citations r2) \<and>
      length (sample_citations (citations r1)) = length (sample_citations (citations r2)) \<and>
      (unique_citations (citations r1) \<le> 10 \<longrightarrow>
         set (sample_citations (citations r1)) = set (sample_citations (citations r2))) \<and>
      top_keywords r1 = top_keywords r2)"

section \<open>The empty text\<close>

lemma split_sep_aux_nonempty: "split_sep_aux sep cur s \<noteq> []"
  by (induction sep cur s rule: split_sep_aux.induct) auto















section \<open>The matcher and the summarizer\<close>


text \<open>
  C10. For every text, the empty one included, the paragraph count of the summary is
  at least 1: splitting at blank lines always yields a piece, and the empty text is one
  paragraph.
\<close>

theorem paragraph_count_at_least_one:
  "1 \<le> paragraph_count (generate_summary text) \<and> paragraph_count (generate_summary []) = 1"
proof
  have "split_sep_aux [CHR 0x0A, CHR 0x0A] [] text \<noteq> []"
    by (rule split_sep_aux_nonempty)
  then show "1 \<le> paragraph_count (generate_summary text)"
    by (cases "split_sep_aux [CHR 0x0A, CHR 0x0A] [] text")
      (simp_all add: generate_summary_def split_sep_def)
next
  show "paragraph_count (generate_summary []) = 1"
    by (simp add: generate_summary_def split_sep_def)
qed

section \<open>The concept extractor\<close>

lemma dict_set_fresh: "k \<notin> fst ` set d \<Longrightarrow> dict_set d k v = d @ [(k, v)]"
  by (induction d) auto

lemma fold_positive:
  "distinct ks \<Longrightarrow> fst ` set acc \<inter> set ks = {} \<Longrightarrow>
   fold (\<lambda>k d. let n = f k in if 0 < n then dict_set d k n else d) ks acc =
     acc @ filter (\<lambda>p. 0 < snd p) (map (\<lambda>k. (k, f k)) ks)"
proof (induction ks arbitrary: acc)
  case Nil
  then show ?case by simp
next
  case (Cons k ks)
  from Cons.prems have fresh: "k \<notin> fst ` set acc" and d: "distinct ks" and nk: "k \<notin> set ks"
    and disj: "fst ` set acc \<inter> set ks = {}"
    by auto
  show ?case
  proof (cases "0 < f k")
    case True
    have "fst ` set (acc @ [(k, f k)]) \<inter> set ks = {}"
      using disj nk by auto
    from Cons.IH [OF d this] True fresh show ?thesis
      by (simp add: dict_set_fresh)
  next
    case False
    from Cons.IH [OF d disj] False show ?thesis by simp
  qed
qed

lemma distinct_concepts: "distinct concepts"
  by code_simp

lemma concepts_found_eq:
  "concepts_found t = filter (\<lambda>p. 0 < snd p) (map (\<lambda>c. (c, count_matches t c)) concepts)"
  using fold_positive [OF distinct_concepts, of "[]" "count_matches t"]
  by (simp add: concepts_found_def)

lemma set_sorted_reverse: "set (sorted_reverse key xs) = set xs"
  by (simp add: sorted_reverse_def)

lemma sorted_reverse_desc: "sorted_wrt (\<ge>) (map key (sorted_reverse key xs))"
proof -
  have "sorted (map key (sort_key key (rev xs)))" by simp
  then have "sorted_wrt (\<ge>) (rev (map key (sort_key key (rev xs))))"
    by (simp add: sorted_wrt_rev)
  then show ?thesis by (simp add: sorted_reverse_def rev_map)
qed

lemma sorted_reverse_stable:
  "filter (\<lambda>y. key y = k) (sorted_reverse key xs) = filter (\<lambda>y. key y = k) xs"
  by (simp add: sorted_reverse_def rev_filter [symmetric] sort_key_stable)

lemma count_class_in_order:
  "map fst (filter (\<lambda>p. snd p = k) (filter (\<lambda>p. 0 < snd p) (map (\<lambda>c. (c, f c)) cs))) =
     filter (\<lambda>c. 0 < k \<and> f c = (k::nat)) cs"
  by (induction cs) auto

text \<open>
  C8. For every text, \<open>extract_concepts\<close> lists a concept only with its count, which is
  positive; the counts do not increase along the list; and for every count the concepts
  holding it stand in the order in which the taxonomy declares them.
\<close>

theorem concepts_ranked:
  "(\<forall>p \<in> set (extract_concepts text).
      fst p \<in> set concepts \<and> snd p = count_matches (lower text) (fst p) \<and> 0 < snd p) \<and>
   sorted_wrt (\<ge>) (map snd (extract_concepts text)) \<and>
   (\<forall>k. map fst (filter (\<lambda>p. snd p = k) (extract_concepts text)) =
        filter (\<lambda>c. 0 < k \<and> count_matches (lower text) c = k) concepts)"
proof (intro conjI allI)
  show "\<forall>p \<in> set (extract_concepts text).
      fst p \<in> set concepts \<and> snd p = count_matches (lower text) (fst p) \<and> 0 < snd p"
    by (auto simp: extract_concepts_def set_sorted_reverse concepts_found_eq)
next
  show "sorted_wrt (\<ge>) (map snd (extract_concepts text))"
    unfolding extract_concepts_def by (rule sorted_reverse_desc)
next
  fix k
  have "map fst (filter (\<lambda>p. snd p = k) (extract_concepts text)) =
        map fst (filter (\<lambda>p. snd p = k) (concepts_found (lower text)))"
    by (simp add: extract_concepts_def sorted_reverse_stable)
  also have "\<dots> = filter (\<lambda>c. 0 < k \<and> count_matches (lower text) c = k) concepts"
    unfolding concepts_found_eq by (rule count_class_in_order)
  finally show "map fst (filter (\<lambda>p. snd p = k) (extract_concepts text)) =
        filter (\<lambda>c. 0 < k \<and> count_matches (lower text) c = k) concepts" .
qed

theorem concepts_ranked_witness:
  "extract_concepts ''values norms roles norms'' = [(''norms'', 2), (''values'', 1), (''roles'', 1)] \<and>
   (''norms'', 2) \<in> set (extract_concepts ''values norms roles norms'') \<and>
   sorted_wrt (\<ge>) (map snd (extract_concepts ''values norms roles norms'')) \<and>
   map fst (filter (\<lambda>p. snd p = 1) (extract_concepts ''values norms roles norms'')) = [''values'', ''roles'']"
proof -
  have e: "extract_concepts ''values norms roles norms'' = [(''norms'', 2), (''values'', 1), (''roles'', 1)]"
    by code_simp
  show ?thesis
    using concepts_ranked [of "''values norms roles norms''"] by (simp add: e)
qed

section \<open>The citation extractor\<close>

lemma valid_set_order_remdups: "valid_set_order remdups"
  by (simp add: valid_set_order_def)

lemma valid_set_order_rev_remdups: "valid_set_order (\<lambda>xs. rev (remdups xs))"
  by (simp add: valid_set_order_def)

lemma valid_set_order_length:
  "valid_set_order set_order \<Longrightarrow> length (set_order xs) = card (set xs)"
  by (metis valid_set_order_def distinct_card)

text \<open>
  C7. For every text and every iteration order of the set of matches,
  \<open>extract_citations\<close> reports no more unique citations than citations, at most
  \<open>min 10 unique_citations\<close> samples, and samples that are pairwise distinct and all
  among the pooled matches of the patterns.
\<close>

theorem citations_deduplicated:
  assumes "valid_set_order set_order"
  shows "unique_citations (extract_citations set_order text)
           \<le> total_citations (extract_citations set_order text) \<and>
         length (sample_citations (extract_citations set_order text))
           \<le> min 10 (unique_citations (extract_citations set_order text)) \<and>
         distinct (sample_citations (extract_citations set_order text)) \<and>
         set (sample_citations (extract_citations set_order text)) \<subseteq> set (all_citations text)"
proof (intro conjI)
  show "unique_citations (extract_citations set_order text)
          \<le> total_citations (extract_citations set_order text)"
    by (simp add: extract_citations_def card_length)
next
  show "length (sample_citations (extract_citations set_order text))
          \<le> min 10 (unique_citations (extract_citations set_order text))"
    by (simp add: extract_citations_def valid_set_order_length [OF assms])
next
  from assms have "distinct (set_order (all_citations text))"
    by (simp add: valid_set_order_def)
  then show "distinct (sample_citations (extract_citations set_order text))"
    by (simp add: extract_citations_def)
next
  from assms have "set (set_order (all_citations text)) = set (all_citations text)"
    by (simp add: valid_set_order_def)
  then show "set (sample_citations (extract_citations set_order text)) \<subseteq> set (all_citations text)"
    using set_take_subset [of 10 "set_order (all_citations text)"]
    by (simp add: extract_citations_def)
qed

theorem citations_deduplicated_witness:
  "valid_set_order remdups \<and>
   all_citations ''(Smith, 2020) and (Smith, 2020); Jones (2019)'' =
     [''(Smith, 2020)'', ''(Smith, 2020)'', ''Jones (2019)''] \<and>
   extract_citations remdups ''(Smith, 2020) and (Smith, 2020); Jones (2019)'' =
     \<lparr>total_citations = 3, unique_citations = 2,
      sample_citations = [''(Smith, 2020)'', ''Jones (2019)'']\<rparr> \<and>
   unique_citations (extract_citations remdups ''(Smith, 2020) and (Smith, 2020); Jones (2019)'')
     \<le> total_citations (extract_citations remdups ''(Smith, 2020) and (Smith, 2020); Jones (2019)'') \<and>
   length (sample_citations (extract_citations remdups ''(Smith, 2020) and (Smith, 2020); Jones (2019)''))
     \<le> min 10 (unique_citations (extract_citations remdups ''(Smith, 2020) and (Smith, 2020); Jones (2019)''))"
proof -
  have a: "all_citations ''(Smith, 2020) and (Smith, 2020); Jones (2019)'' =
     [''(Smith, 2020)'', ''(Smith, 2020)'', ''Jones (2019)'']"
    by code_simp
  have e: "extract_citations remdups ''(Smith, 2020) and (Smith, 2020); Jones (2019)'' =
     \<lparr>total_citations = 3, unique_citations = 2,
      sample_citations = [''(Smith, 2020)'', ''Jones (2019)'']\<rparr>"
    by (simp add: extract_citations_def a)
  show ?thesis
    using citations_deduplicated [OF valid_set_order_remdups,
        of "''(Smith, 2020) and (Smith, 2020); Jones (2019)''"]
    by (simp add: e a valid_set_order_remdups)
qed

section \<open>The primary methodology\<close>

lemma max_by_count_mem: "max_by_count b xs \<in> set (b # xs)"
  by (induction xs arbitrary: b) auto

lemma max_by_count_ge_init: "snd b \<le> snd (max_by_count b xs)"
proof (induction xs arbitrary: b)
  case Nil
  then show ?case by simp
next
  case (Cons x xs)
  have "snd b \<le> snd (if snd b < snd x then x else b)" by simp
  also have "\<dots> \<le> snd (max_by_count (if snd b < snd x then x else b) xs)" by (rule Cons.IH)
  finally show ?case by simp
qed

lemma max_by_count_ge: "p \<in> set (b # xs) \<Longrightarrow> snd p \<le> snd (max_by_count b xs)"
proof (induction xs arbitrary: b)
  case Nil
  then show ?case by simp
next
  case (Cons x xs)
  show ?case
  proof (cases "p \<in> set xs")
    case True
    then show ?thesis using Cons.IH [of "if snd b < snd x then x else b"] by simp
  next
    case False
    with Cons.prems have "snd p \<le> snd (if snd b < snd x then x else b)" by auto
    also have "\<dots> \<le> snd (max_by_count (if snd b < snd x then x else b) xs)"
      by (rule max_by_count_ge_init)
    finally show ?thesis by simp
  qed
qed

text \<open>The scores always list the three categories, in the order of their declaration.\<close>

lemma map_fst_dict_incr: "map fst (dict_incr d k n) = map fst d"
  by (induction d) (auto simp: dict_incr_def)

lemma map_fst_fold_dict_incr:
  "map fst (fold (\<lambda>keyword scores'. dict_incr scores' m (f keyword)) ks d) = map fst d"
  by (induction ks arbitrary: d) (simp_all add: map_fst_dict_incr)

lemma map_fst_fold_fold_dict_incr:
  "map fst (fold (\<lambda>(m, ks) scores. fold (\<lambda>keyword scores'. dict_incr scores' m (f keyword)) ks scores) ms d)
     = map fst d"
  by (induction ms arbitrary: d) (simp_all add: map_fst_fold_dict_incr case_prod_unfold)

lemma detect_methodology_keys:
  "map fst (detect_methodology text) = [''qualitative'', ''quantitative'', ''mixed_methods'']"
  by (simp add: detect_methodology_def Let_def map_fst_fold_fold_dict_incr)


lemma detect_methodology_shape:
  "\<exists>a b c. detect_methodology text =
     [(''qualitative'', a), (''quantitative'', b), (''mixed_methods'', c)]"
  using detect_methodology_keys [of "text"] by (auto simp: map_eq_Cons_conv)

lemma primary_methodology_three:
  "primary_methodology [(''qualitative'', a), (''quantitative'', b), (''mixed_methods'', c)] =
     (if a + b + c = 0 then No_clear_indicators
      else if b \<le> a \<and> c \<le> a then Primary ''qualitative''
      else if c \<le> b then Primary ''quantitative''
      else Primary ''mixed_methods'')"
  by (auto simp: primary_methodology_def Let_def)

lemma strict_maximum_three:
  "strict_maximum [(''qualitative'', a), (''quantitative'', b), (''mixed_methods'', c)] k =
     ((k = ''qualitative'' \<and> b < a \<and> c < a) \<or>
      (k = ''quantitative'' \<and> a < b \<and> c < b) \<or>
      (k = ''mixed_methods'' \<and> a < c \<and> b < c))"
  by (auto simp: strict_maximum_def)

text \<open>
  C3, as amended. For every text the scores list the three categories in the order
  qualitative, quantitative, mixed methods. When their total is 0 the narrative says
  that no clear methodology indicators were found. When it is positive, the primary
  methodology named is the first category, in that order, whose count no other count
  exceeds; so a category that holds the strict maximum is the one named.
\<close>

theorem primary_methodology_first_maximum:
  "(\<exists>a b c.
      detect_methodology text =
        [(''qualitative'', a), (''quantitative'', b), (''mixed_methods'', c)] \<and>
      primary_methodology (detect_methodology text) =
        (if a + b + c = 0 then No_clear_indicators
         else if b \<le> a \<and> c \<le> a then Primary ''qualitative''
         else if c \<le> b then Primary ''quantitative''
         else Primary ''mixed_methods'')) \<and>
   (\<forall>k. strict_maximum (detect_methodology text) k \<longrightarrow>
      primary_methodology (detect_methodology text) = Primary k)"
proof -
  obtain a b c where m: "detect_methodology text =
      [(''qualitative'', a), (''quantitative'', b), (''mixed_methods'', c)]"
    using detect_methodology_shape by blast
  have "\<forall>k. strict_maximum (detect_methodology text) k \<longrightarrow>
      primary_methodology (detect_methodology text) = Primary k"
    unfolding m primary_methodology_three strict_maximum_three by auto
  with m primary_methodology_three [of a b c] show ?thesis by simp
qed


theorem primary_methodology_first_maximum_witness:
  "detect_methodology ''survey'' =
     [(''qualitative'', 0), (''quantitative'', 1), (''mixed_methods'', 0)] \<and>
   strict_maximum (detect_methodology ''survey'') ''quantitative'' \<and>
   primary_methodology (detect_methodology ''survey'') = Primary ''quantitative''"
proof -
  have d: "detect_methodology ''survey'' =
     [(''qualitative'', 0), (''quantitative'', 1), (''mixed_methods'', 0)]"
    by code_simp
  have s: "strict_maximum (detect_methodology ''survey'') ''quantitative''"
    by (simp add: d strict_maximum_three)
  from primary_methodology_first_maximum [of "''survey''"] s
  have "primary_methodology (detect_methodology ''survey'') = Primary ''quantitative''"
    by blast
  with d s show ?thesis by simp
qed

text \<open>
  The claim as it is written fails on a tie: in \<^verbatim>\<open>interview survey\<close> the qualitative
  and the quantitative category count 1 each, the total is positive, and the narrative
  names the qualitative category, which does not hold the strict maximum.
\<close>

theorem primary_methodology_tie_counterexample:
  "detect_methodology ''interview survey'' =
     [(''qualitative'', 1), (''quantitative'', 1), (''mixed_methods'', 0)] \<and>
   0 < sum_list (map snd (detect_methodology ''interview survey'')) \<and>
   primary_methodology (detect_methodology ''interview survey'') = Primary ''qualitative'' \<and>
   \<not> strict_maximum (detect_methodology ''interview survey'') ''qualitative'' \<and>
   \<not> (\<exists>k. primary_methodology (detect_methodology ''interview survey'') = Primary k \<and>
          strict_maximum (detect_methodology ''interview survey'') k)"
proof -
  have d: "detect_methodology ''interview survey'' =
     [(''qualitative'', 1), (''quantitative'', 1), (''mixed_methods'', 0)]"
    by code_simp
  show ?thesis
    unfolding d primary_methodology_three strict_maximum_three by simp
qed

section \<open>The analysis of a text\<close>

lemma analyze_text:
  "text \<noteq> [] \<Longrightarrow>
   analyze set_order now path (Some text) =
     Some
       (\<lparr>primary = primary_methodology (detect_methodology text),
         concepts_listed = take 15 (extract_concepts text),
         citations_listed = take 5 (sample_citations (extract_citations set_order text)),
         keywords_listed = extract_keywords text 15\<rparr>,
        \<lparr>filepath = path, timestamp = now, summary = generate_summary text,
         methodology = detect_methodology text,
         theories_found = identify_theories set_order text,
         concepts_found_sorted = extract_concepts text,
         components = analyze_research_components text,
         citations = extract_citations set_order text,
         top_keywords = extract_keywords text 15\<rparr>)"
  by (simp add: analyze_def Let_def)

lemma analyze_nothing:
  "analyze set_order now path None = None" "analyze set_order now path (Some []) = None"
  by (simp_all add: analyze_def)



section \<open>The keyword ranker\<close>

lemma length_sorted_reverse: "length (sorted_reverse key xs) = length xs"
  by (simp add: sorted_reverse_def)

text \<open>
  C4, as amended. \<open>extract_keywords\<close> returns the first \<open>top_n\<close> of the ranked
  keywords, for any \<open>top_n\<close> the caller passes, and 20 of them by default; \<open>analyze\<close>
  asks for 15, lists them in the narrative and returns the same 15 in the structured
  result.
\<close>

theorem keywords_top_n:
  assumes "text \<noteq> []"
  shows "extract_keywords text top_n =
           take (nat top_n) (sorted_reverse snd (counter (keyword_tokens text))) \<and>
         length (extract_keywords text top_n) =
           min (nat top_n) (length (counter (keyword_tokens text))) \<and>
         extract_keywords_default text = extract_keywords text 20 \<and>
         extract_keywords text 15 = take 15 (extract_keywords text 20) \<and>
         map_option (keywords_listed \<circ> fst) (analyze set_order now path (Some text)) =
           Some (extract_keywords text 15) \<and>
         map_option (top_keywords \<circ> snd) (analyze set_order now path (Some text)) =
           Some (extract_keywords text 15)"
  using assms
  by (simp add: analyze_text extract_keywords_def most_common_def length_sorted_reverse
      extract_keywords_default_def min.commute)

theorem keywords_top_n_witness:
  "''norms roles class power state labor wages union rural urban elite youth women caste ethnic family'' \<noteq> [] \<and>
   length (extract_keywords
     ''norms roles class power state labor wages union rural urban elite youth women caste ethnic family'' 15) = 15 \<and>
   map_option (top_keywords \<circ> snd) (analyze remdups ''2026-01-01T00:00:00'' ''paper.txt''
     (Some ''norms roles class power state labor wages union rural urban elite youth women caste ethnic family'')) =
   Some (extract_keywords
     ''norms roles class power state labor wages union rural urban elite youth women caste ethnic family'' 15)"
proof -
  have l: "length (extract_keywords
     ''norms roles class power state labor wages union rural urban elite youth women caste ethnic family'' 15) = 15"
    by code_simp
  have n: "''norms roles class power state labor wages union rural urban elite youth women caste ethnic family'' \<noteq> []"
    by simp
  from keywords_top_n [OF n, of 15 remdups "''2026-01-01T00:00:00''" "''paper.txt''"]
  have a: "map_option (top_keywords \<circ> snd) (analyze remdups ''2026-01-01T00:00:00'' ''paper.txt''
     (Some ''norms roles class power state labor wages union rural urban elite youth women caste ethnic family'')) =
   Some (extract_keywords
     ''norms roles class power state labor wages union rural urban elite youth women caste ethnic family'' 15)"
    by (elim conjE)
  from n l a show ?thesis by (intro conjI)
qed

text \<open>
  The claim as it is written fails for the structured result: on a text of 16 distinct
  keywords the top 20 are all 16 of them, and the result of \<open>analyze\<close> holds 15.
\<close>

theorem keywords_export_counterexample:
  "length (extract_keywords
     ''norms roles class power state labor wages union rural urban elite youth women caste ethnic family'' 20) = 16 \<and>
   map_option (length \<circ> top_keywords \<circ> snd) (analyze remdups ''2026-01-01T00:00:00'' ''paper.txt''
     (Some ''norms roles class power state labor wages union rural urban elite youth women caste ethnic family'')) =
   Some 15 \<and>
   map_option (top_keywords \<circ> snd) (analyze remdups ''2026-01-01T00:00:00'' ''paper.txt''
     (Some ''norms roles class power state labor wages union rural urban elite youth women caste ethnic family'')) \<noteq>
   Some (extract_keywords
     ''norms roles class power state labor wages union rural urban elite youth women caste ethnic family'' 20)"
proof -
  have l20: "length (extract_keywords
     ''norms roles class power state labor wages union rural urban elite youth women caste ethnic family'' 20) = 16"
    by code_simp
  have l15: "length (extract_keywords
     ''norms roles class power state labor wages union rural urban elite youth women caste ethnic family'' 15) = 15"
    by code_simp
  have ne: "extract_keywords
     ''norms roles class power state labor wages union rural urban elite youth women caste ethnic family'' 15 \<noteq>
    extract_keywords
     ''norms roles class power state labor wages union rural urban elite youth women caste ethnic family'' 20"
  proof
    assume "extract_keywords
     ''norms roles class power state labor wages union rural urban elite youth women caste ethnic family'' 15 =
    extract_keywords
     ''norms roles class power state labor wages union rural urban elite youth women caste ethnic family'' 20"
    with l15 l20 have "(15::nat) = 16" by simp
    then show False by simp
  qed
  show ?thesis
    using l20 l15 ne by (simp add: analyze_text del: map_option_eq_Some)
qed

section \<open>Repeating the analysis\<close>

lemma dict_set_same_finding:
  "list_all2 same_finding d1 d2 \<Longrightarrow> same_finding (k, v1) (k, v2) \<Longrightarrow>
   list_all2 same_finding (dict_set d1 k v1) (dict_set d2 k v2)"
proof (induction d1 d2 rule: list_all2_induct)
  case Nil
  then show ?case by simp
next
  case (Cons x xs y ys)
  obtain k1 u1 k2 u2 where x: "x = (k1, u1)" and y: "y = (k2, u2)"
    by (cases x, cases y) auto
  from Cons.hyps(1) have "k1 = k2" by (simp add: x y same_finding_def)
  with Cons show ?case by (simp add: x y)
qed

lemma identify_theories_same:
  assumes "valid_set_order o1" "valid_set_order o2"
  shows "list_all2 same_finding (identify_theories o1 text) (identify_theories o2 text)"
proof -
  have terms: "set (o1 xs) = set (o2 xs)" for xs
    using assms by (simp add: valid_set_order_def)
  have step: "list_all2 same_finding acc1 acc2 \<Longrightarrow>
      list_all2 same_finding
        (fold (\<lambda>(theory_name, keywords) theories_found.
                 (let (n, matched_terms) = fold (theory_step t) keywords (0, [])
                  in if 0 < n
                     then dict_set theories_found theory_name
                            \<lparr>count = n, terms = o1 matched_terms\<rparr>
                     else theories_found)) ths acc1)
        (fold (\<lambda>(theory_name, keywords) theories_found.
                 (let (n, matched_terms) = fold (theory_step t) keywords (0, [])
                  in if 0 < n
                     then dict_set theories_found theory_name
                            \<lparr>count = n, terms = o2 matched_terms\<rparr>
                     else theories_found)) ths acc2)" for t ths acc1 acc2
  proof (induction ths arbitrary: acc1 acc2)
    case Nil
    then show ?case by simp
  next
    case (Cons th ths)
    obtain name kws where th: "th = (name, kws)" by (cases th)
    obtain n mt where f: "fold (theory_step t) kws (0, []) = (n, mt)"
      by (cases "fold (theory_step t) kws (0, [])")
    have "same_finding (name, \<lparr>count = n, terms = o1 mt\<rparr>) (name, \<lparr>count = n, terms = o2 mt\<rparr>)"
      by (simp add: same_finding_def terms)
    with Cons.prems
    have "list_all2 same_finding (dict_set acc1 name \<lparr>count = n, terms = o1 mt\<rparr>)
            (dict_set acc2 name \<lparr>count = n, terms = o2 mt\<rparr>)"
      by (rule dict_set_same_finding)
    then have pos: "list_all2 same_finding
        (fold (\<lambda>(theory_name, keywords) theories_found.
                 (let (n, matched_terms) = fold (theory_step t) keywords (0, [])
                  in if 0 < n
                     then dict_set theories_found theory_name
                            \<lparr>count = n, terms = o1 matched_terms\<rparr>
                     else theories_found)) ths (dict_set acc1 name \<lparr>count = n, terms = o1 mt\<rparr>))
        (fold (\<lambda>(theory_name, keywords) theories_found.
                 (let (n, matched_terms) = fold (theory_step t) keywords (0, [])
                  in if 0 < n
                     then dict_set theories_found theory_name
                            \<lparr>count = n, terms = o2 matched_terms\<rparr>
                     else theories_found)) ths (dict_set acc2 name \<lparr>count = n, terms = o2 mt\<rparr>))"
      by (rule Cons.IH)
    show ?case
    proof (cases "0 < n")
      case True
      with pos show ?thesis by (simp add: th f)
    next
      case False
      with Cons.IH [OF Cons.prems] show ?thesis by (simp add: th f)
    qed
  qed
  from step [of "[]" "[]" "lower text" theories] show ?thesis
    by (simp add: identify_theories_def Let_def)
qed

lemma extract_citations_same:
  assumes "valid_set_order o1" "valid_set_order o2"
  shows "total_citations (extract_citations o1 text) = total_citations (extract_citations o2 text)"
    and "unique_citations (extract_citations o1 text) = unique_citations (extract_citations o2 text)"
    and "length (sample_citations (extract_citations o1 text)) =
         length (sample_citations (extract_citations o2 text))"
    and "unique_citations (extract_citations o1 text) \<le> 10 \<Longrightarrow>
         set (sample_citations (extract_citations o1 text)) =
         set (sample_citations (extract_citations o2 text))"
proof -
  have l1: "length (o1 (all_citations text)) = card (set (all_citations text))"
    and l2: "length (o2 (all_citations text)) = card (set (all_citations text))"
    using assms by (simp_all add: valid_set_order_length)
  have s: "set (o1 (all_citations text)) = set (o2 (all_citations text))"
    using assms by (simp add: valid_set_order_def)
  show "total_citations (extract_citations o1 text) = total_citations (extract_citations o2 text)"
    "unique_citations (extract_citations o1 text) = unique_citations (extract_citations o2 text)"
    by (simp_all add: extract_citations_def)
  show "length (sample_citations (extract_citations o1 text)) =
         length (sample_citations (extract_citations o2 text))"
    by (simp add: extract_citations_def l1 l2)
  show "set (sample_citations (extract_citations o1 text)) =
         set (sample_citations (extract_citations o2 text))"
    if "unique_citations (extract_citations o1 text) \<le> 10"
    using that s by (simp add: extract_citations_def l1 l2)
qed

text \<open>
  C6, as amended. Two runs of the analysis on the same contents, whatever the clock and
  whatever the order in which each run iterates its sets, both return a result or both
  return none, and the results agree up to the timestamp and the iteration order: the
  summary, the methodology, the concepts, the components, the keywords, the theories'
  names and counts and the numbers of citations are identical; the terms of a theory
  are identical as sets; the sample citations are equally many, and identical as sets
  when there are at most 10 unique citations. Two runs that iterate sets in the same
  order return results that differ in the timestamp only.
\<close>

theorem analysis_repeatable:
  assumes "valid_set_order o1" "valid_set_order o2"
  shows "rel_option (\<lambda>a b. same_up_to_set_order (snd a) (snd b))
           (analyze o1 now1 path contents) (analyze o2 now2 path contents) \<and>
         map_option (\<lambda>a. (snd a)\<lparr>timestamp := []\<rparr>) (analyze o1 now1 path contents) =
         map_option (\<lambda>a. (snd a)\<lparr>timestamp := []\<rparr>) (analyze o1 now2 path contents)"
proof (cases "contents = None \<or> contents = Some []")
  case True
  then show ?thesis by (auto simp: analyze_nothing)
next
  case False
  then obtain t where c: "contents = Some t" and ne: "t \<noteq> []" by auto
  show ?thesis
    unfolding c
    by (simp add: analyze_text [OF ne] same_up_to_set_order_def
        identify_theories_same [OF assms] extract_citations_same [OF assms])
qed


theorem analysis_repeatable_witness:
  "valid_set_order remdups \<and> valid_set_order (\<lambda>xs. rev (remdups xs)) \<and>
   analyze remdups ''2026-01-01T00:00:00'' ''paper.txt'' (Some ''(Smith, 2020) (Jones, 2019)'') \<noteq> None \<and>
   rel_option (\<lambda>a b. same_up_to_set_order (snd a) (snd b))
     (analyze remdups ''2026-01-01T00:00:00'' ''paper.txt'' (Some ''(Smith, 2020) (Jones, 2019)''))
     (analyze (\<lambda>xs. rev (remdups xs)) ''2026-01-02T00:00:00'' ''paper.txt''
        (Some ''(Smith, 2020) (Jones, 2019)''))"
proof -
  have a: "analyze remdups ''2026-01-01T00:00:00'' ''paper.txt''
      (Some ''(Smith, 2020) (Jones, 2019)'') \<noteq> None"
    by (simp add: analyze_text)
  from analysis_repeatable [OF valid_set_order_remdups valid_set_order_rev_remdups,
      of "''2026-01-01T00:00:00''" "''paper.txt''" "Some ''(Smith, 2020) (Jones, 2019)''"
        "''2026-01-02T00:00:00''"]
  have r: "rel_option (\<lambda>a b. same_up_to_set_order (snd a) (snd b))
     (analyze remdups ''2026-01-01T00:00:00'' ''paper.txt'' (Some ''(Smith, 2020) (Jones, 2019)''))
     (analyze (\<lambda>xs. rev (remdups xs)) ''2026-01-02T00:00:00'' ''paper.txt''
        (Some ''(Smith, 2020) (Jones, 2019)''))"
    by (elim conjE)
  from valid_set_order_remdups valid_set_order_rev_remdups a r show ?thesis
    by (intro conjI)
qed

text \<open>
  The claim as it is written fails for the sample citations: \<^verbatim>\<open>list(set(...))\<close> has
  the order in which the run iterates the set, and two runs on the same text that
  iterate it in different orders return different sequences.
\<close>

theorem sample_citations_order_counterexample:
  "valid_set_order remdups \<and> valid_set_order (\<lambda>xs. rev (remdups xs)) \<and>
   map_option (sample_citations \<circ> citations \<circ> snd)
     (analyze remdups ''2026-01-01T00:00:00'' ''paper.txt'' (Some ''(Smith, 2020) (Jones, 2019)'')) =
     Some [''(Smith, 2020)'', ''(Jones, 2019)''] \<and>
   map_option (sample_citations \<circ> citations \<circ> snd)
     (analyze (\<lambda>xs. rev (remdups xs)) ''2026-01-01T00:00:00'' ''paper.txt''
        (Some ''(Smith, 2020) (Jones, 2019)'')) =
     Some [''(Jones, 2019)'', ''(Smith, 2020)'']"
proof -
  have a: "all_citations ''(Smith, 2020) (Jones, 2019)'' = [''(Smith, 2020)'', ''(Jones, 2019)'']"
    by code_simp
  show ?thesis
    by (simp add: analyze_text extract_citations_def a valid_set_order_remdups
        valid_set_order_rev_remdups del: map_option_eq_Some)
qed

section \<open>Keywords that the matcher cannot find\<close>

lemma same_lower_same_counts:
  assumes "lower t1 = lower t2"
  shows "detect_methodology t1 = detect_methodology t2"
    and "identify_theories set_order t1 = identify_theories set_order t2"
    and "extract_concepts t1 = extract_concepts t2"
  using assms by (simp_all add: detect_methodology_def identify_theories_def extract_concepts_def)

lemma lower_char_idem: "lower_char (lower_char c) = lower_char c"
proof (cases "is_upper c")
  case True
  then have "65 \<le> (of_char c :: nat)" "(of_char c :: nat) \<le> 90"
    by (simp_all add: is_upper_def less_eq_char_def)
  then have "\<not> is_upper (char_of (of_char c + (32::nat)))"
    by (simp add: is_upper_def less_eq_char_def)
  with True show ?thesis by (simp add: lower_char_def)
next
  case False
  then show ?thesis by (simp add: lower_char_def)
qed

lemma lower_idem: "lower (lower t) = lower t"
  by (simp add: lower_def lower_char_idem)


text \<open>
  The counts depend on the text through its lowered form only, so they are the same for
  two texts that differ in case.
\<close>

lemma counts_of_lowered_text:
  "detect_methodology (lower t) = detect_methodology t"
  "identify_theories set_order (lower t) = identify_theories set_order t"
  "extract_concepts (lower t) = extract_concepts t"
  by (rule same_lower_same_counts, rule lower_idem)+

text \<open>
  C2. The count is a natural number and does not change with the case of the text, but
  it does change with the case of the keyword: the keyword is matched as it is written
  against the lowered text. The taxonomy's concept \<^verbatim>\<open>McDonaldization\<close> is written
  with capitals, so it is counted 0 times in a text that consists of this very word,
  where its lowered form is counted once, and \<open>extract_concepts\<close> returns nothing.
\<close>

theorem capitalised_keyword_never_counted:
  "''McDonaldization'' \<in> set concepts \<and>
   count_matches (lower ''McDonaldization'') ''McDonaldization'' = 0 \<and>
   count_matches (lower ''McDonaldization'') (lower ''McDonaldization'') = 1 \<and>
   extract_concepts ''McDonaldization'' = []"
  by code_simp

text \<open>
  C1. The keywords \<^verbatim>\<open>n =\<close> and \<^verbatim>\<open>p <\<close> end in a non-word character, and the
  pattern closes with \<^verbatim>\<open>\b\<close>, which there asks for a word character to follow at
  once. In \<^verbatim>\<open>n = 45 participants, p < 0.05\<close> a space follows, no keyword matches and
  the quantitative score is 0, while the component pattern \<^verbatim>\<open>n\s*=\s*\d+\<close> does find the
  sample size, and the keyword is found once the space is left out.
\<close>

theorem statistics_keywords_not_counted:
  "detect_methodology ''n = 45 participants, p < 0.05'' =
     [(''qualitative'', 0), (''quantitative'', 0), (''mixed_methods'', 0)] \<and>
   count_matches (lower ''n = 45 participants, p < 0.05'') ''n ='' = 0 \<and>
   count_matches (lower ''n = 45 participants, p < 0.05'') ''p <'' = 0 \<and>
   count_matches (lower ''n =45'') ''n ='' = 1 \<and>
   analyze_research_components ''n = 45 participants, p < 0.05'' = [(''sample'', 1)]"
  by code_simp

end
